theory Spec2Isabelle
  imports Complex_Main
begin

section \<open>Data model of the synchronisation engine (server/dashService.ts, shared/schema.ts)\<close>

text \<open>
  JavaScript numbers that hold heights, timestamps and counts are integers here; amounts of
  currency (fees, subsidy, reward) are doubles in the source and real numbers here, so
  every rounding of IEEE arithmetic is idealised away.
\<close>

definition JAN_1_2026_UNIX :: int where
  "JAN_1_2026_UNIX = 1767225600"

text \<open>The interface \<open>BlockData\<close>: what one fetch of a block yields.\<close>

record BlockData =
  hash :: string
  height :: int
  time :: int
  txCount :: int
  totalFees :: real
  subsidy :: real

text \<open>A row of the table \<open>core_block_fees\<close> (type \<open>CoreBlockFee\<close>); \<open>hash\<close> is the primary key.\<close>

record CoreBlockFee =
  row_hash :: string
  row_height :: int
  row_time :: int
  row_totalFees :: real
  row_reward :: real
  row_txCount :: int

text \<open>A row of the table \<open>platform_epoch_fees\<close>; \<open>epochNumber\<close> is the primary key.\<close>

record PlatformEpochFee =
  epochNumber :: int
  startTime :: int
  endTime :: int
  totalCollectedFees :: int
  feeMultiplier :: int

text \<open>The process-local object \<open>backfillProgress\<close>.\<close>

record BackfillProgress =
  totalNeeded :: int
  totalDone :: int
  oldestHeight :: int
  targetHeight :: int
  status :: string

datatype db_error = DbError

section \<open>Subsidy schedule and superblocks\<close>

text \<open>
  The remainder operator \<open>%\<close> of JavaScript truncates towards zero: the result has the
  sign of the dividend.
\<close>

definition js_rem :: "int \<Rightarrow> int \<Rightarrow> int" where
  "js_rem a b = sgn a * (\<bar>a\<bar> mod \<bar>b\<bar>)"

definition reductionInterval :: int where
  "reductionInterval = 210240"

definition superblockCycle :: int where
  "superblockCycle = 16616"

text \<open>The loop \<open>for (let i = 0; i < reductions; i++) subsidy = subsidy - subsidy / 14\<close>.\<close>

function subsidy_loop :: "int \<Rightarrow> int \<Rightarrow> real \<Rightarrow> real" where
  "subsidy_loop i reductions s =
     (if i < reductions then subsidy_loop (i + 1) reductions (s - s / 14) else s)"
  by pat_completeness auto
termination
  by (relation "measure (\<lambda>(i, reductions, s). nat (reductions - i))") auto

declare subsidy_loop.simps [simp del]

text \<open>\<open>Math.floor(height / reductionInterval)\<close> is the floor division of HOL on integers.\<close>

definition getBlockSubsidy :: "int \<Rightarrow> real" where
  "getBlockSubsidy h = subsidy_loop 0 (h div reductionInterval) 5"

definition isSuperblock :: "int \<Rightarrow> bool" where
  "isSuperblock h \<longleftrightarrow> js_rem h superblockCycle = 0"

definition blockDataToRow :: "BlockData \<Rightarrow> CoreBlockFee" where
  "blockDataToRow block =
     (let fees = (if isSuperblock (height block) then 0 else totalFees block)
      in \<lparr> row_hash = hash block,
           row_height = height block,
           row_time = time block,
           row_totalFees = fees,
           row_reward = subsidy block + fees,
           row_txCount = txCount block \<rparr>)"

section \<open>Source selector\<close>

text \<open>
  The module variable \<open>rpcAvailable : boolean | null\<close> is a \<open>bool option\<close>, \<open>None\<close> for
  \<open>null\<close>. \<open>checkRpcAvailability\<close> reads the environment through two inputs: whether
  \<open>getRpcConfig().configured\<close> holds, and whether the probe \<open>rpcCall("getblockcount")\<close>
  would return rather than throw. Its outcome is the boolean returned, the new value of
  \<open>rpcAvailable\<close>, and whether the probe was issued.
\<close>

record rpc_check =
  answer :: bool
  verdict :: "bool option"
  probed :: bool

definition checkRpcAvailability :: "bool \<Rightarrow> bool \<Rightarrow> bool option \<Rightarrow> rpc_check" where
  "checkRpcAvailability configured probeOk rpcAvailable =
     (case rpcAvailable of
        Some v \<Rightarrow> \<lparr> answer = v, verdict = Some v, probed = False \<rparr>
      | None \<Rightarrow>
          if \<not> configured then \<lparr> answer = False, verdict = Some False, probed = False \<rparr>
          else if probeOk then \<lparr> answer = True, verdict = Some True, probed = True \<rparr>
          else \<lparr> answer = False, verdict = Some False, probed = True \<rparr>)"

text \<open>
  The callback of \<open>setInterval(..., 5 * 60 * 1000)\<close>:
  \<open>if (!rpcAvailable) rpcAvailable = null\<close>. The negation is true of \<open>null\<close> and of
  \<open>false\<close>.
\<close>

definition rpcAvailable_interval :: "bool option \<Rightarrow> bool option" where
  "rpcAvailable_interval rpcAvailable =
     (if rpcAvailable = Some True then rpcAvailable else None)"

section \<open>Cache store: block rows\<close>

text \<open>
  The table \<open>core_block_fees\<close> is the list of its rows in insertion order. The statement
  \<open>db.insert(coreBlockFees).values(row).onConflictDoNothing()\<close> adds the row unless a row
  with the same primary key is stored; it throws when the database fails, which the input
  \<open>dbOk\<close> decides.
\<close>

definition insert_onConflictDoNothing ::
  "bool \<Rightarrow> CoreBlockFee list \<Rightarrow> CoreBlockFee \<Rightarrow> db_error + CoreBlockFee list" where
  "insert_onConflictDoNothing dbOk tbl row =
     (if \<not> dbOk then Inl DbError
      else if row_hash row \<in> set (map row_hash tbl) then Inr tbl
      else Inr (tbl @ [row]))"

text \<open>\<open>insertBlockRow\<close>: \<open>try { await ...; return true } catch { return false }\<close>.\<close>

definition insertBlockRow ::
  "bool \<Rightarrow> CoreBlockFee list \<Rightarrow> CoreBlockFee \<Rightarrow> bool \<times> CoreBlockFee list" where
  "insertBlockRow dbOk tbl row =
     (case insert_onConflictDoNothing dbOk tbl row of
        Inr tbl' \<Rightarrow> (True, tbl')
      | Inl e \<Rightarrow> (False, tbl))"

section \<open>Epoch sync\<close>

text \<open>
  A numeric field of a JSON answer that the code defaults with \<open>||\<close> before it applies
  \<open>Number\<close>: it is absent (or \<open>null\<close>, or the empty string), a number, or a non-empty
  string that \<open>Number\<close> reads as the given number.
\<close>

datatype json_number = Absent | Num int | NumStr int

text \<open>
  \<open>Number(x || d)\<close>: an absent field and the number 0 are falsy and give the default; a
  non-empty string is truthy, also the string of the number 0.
\<close>

fun number_or :: "json_number \<Rightarrow> int \<Rightarrow> int" where
  "number_or Absent d = d"
| "number_or (Num v) d = (if v = 0 then d else v)"
| "number_or (NumStr v) d = v"

text \<open>
  The JSON answer of \<open>fetchPlatformEpoch\<close>. The times are the fields after \<open>Number(...)\<close>;
  the two fields the code defaults with \<open>||\<close> are kept as the answer has them.
\<close>

record EpochInfo =
  number :: int
  info_startTime :: int
  info_endTime :: int
  info_feeMultiplier :: json_number

record EpochResponse =
  epoch :: "EpochInfo option"
  resp_totalCollectedFees :: json_number

text \<open>\<open>x || d\<close> on a number that may be absent: absent and 0 are both falsy.\<close>

definition js_or :: "int option \<Rightarrow> int \<Rightarrow> int" where
  "js_or x d = (case x of None \<Rightarrow> d | Some v \<Rightarrow> if v = 0 then d else v)"

text \<open>
  \<open>db.insert(platformEpochFees).values(v).onConflictDoUpdate({target: epochNumber, set:
  {totalCollectedFees, endTime}})\<close>: a stored row with the same epoch number gets the two
  fields of the \<open>set\<close> clause and keeps the others; otherwise \<open>v\<close> is added.
\<close>

definition insert_onConflictDoUpdate ::
  "bool \<Rightarrow> PlatformEpochFee list \<Rightarrow> PlatformEpochFee \<Rightarrow> int \<Rightarrow> int
     \<Rightarrow> db_error + PlatformEpochFee list" where
  "insert_onConflictDoUpdate dbOk tbl v setFees setEndTime =
     (if \<not> dbOk then Inl DbError
      else if epochNumber v \<in> set (map epochNumber tbl) then
        Inr (map (\<lambda>r. if epochNumber r = epochNumber v
                       then r\<lparr> totalCollectedFees := setFees, endTime := setEndTime \<rparr>
                       else r) tbl)
      else Inr (tbl @ [v]))"

text \<open>
  The state of the loop of \<open>syncAllPlatformEpochs\<close>: the table, the counter \<open>inserted\<close> (here \<open>epochsInserted\<close>) and
  the waits passed to \<open>delay\<close>.
\<close>

record epoch_sync_state =
  epochTable :: "PlatformEpochFee list"
  epochsInserted :: int
  epochDelays :: "int list"

datatype 'a loop_step = Continue 'a | Break 'a

text \<open>
  One iteration of the loop for the epoch number \<open>epochNum\<close>; \<open>fetchPlatformEpoch\<close> gives
  the answer of the explorer (\<open>None\<close> when the fetch failed), \<open>dbOk\<close> says whether the
  statement for this epoch succeeds.
\<close>

definition syncEpoch ::
  "(int \<Rightarrow> EpochResponse option) \<Rightarrow> (int \<Rightarrow> bool) \<Rightarrow> int \<Rightarrow> epoch_sync_state
     \<Rightarrow> epoch_sync_state loop_step" where
  "syncEpoch fetchPlatformEpoch dbOk epochNum st =
     (case fetchPlatformEpoch epochNum of
        None \<Rightarrow> Continue st
      | Some ep \<Rightarrow>
         (case epoch ep of
            None \<Rightarrow> Continue st
          | Some e \<Rightarrow>
             (let epochStartMs = info_startTime e;
                  epochStartUnix = real_of_int epochStartMs / 1000
              in if epochStartUnix < real_of_int JAN_1_2026_UNIX then Break st
                 else
                   (let fees = number_or (resp_totalCollectedFees ep) 0;
                        v = \<lparr> epochNumber = number e,
                              startTime = epochStartMs,
                              endTime = info_endTime e,
                              totalCollectedFees = fees,
                              feeMultiplier = number_or (info_feeMultiplier e) 1 \<rparr>;
                        st' = (case insert_onConflictDoUpdate (dbOk epochNum) (epochTable st) v
                                      fees (info_endTime e) of
                                 Inr tbl' \<Rightarrow> st\<lparr> epochTable := tbl', epochsInserted := epochsInserted st + 1 \<rparr>
                               | Inl err \<Rightarrow> st)
                    in Continue (st'\<lparr> epochDelays := epochDelays st' @ [200] \<rparr>)))))"

text \<open>\<open>for (let epochNum = currentEpoch; epochNum >= 0; epochNum--)\<close>.\<close>

function syncEpochs_loop ::
  "(int \<Rightarrow> EpochResponse option) \<Rightarrow> (int \<Rightarrow> bool) \<Rightarrow> int \<Rightarrow> epoch_sync_state
     \<Rightarrow> epoch_sync_state" where
  "syncEpochs_loop fetchPlatformEpoch dbOk epochNum st =
     (if 0 \<le> epochNum then
        (case syncEpoch fetchPlatformEpoch dbOk epochNum st of
           Break st' \<Rightarrow> st'
         | Continue st' \<Rightarrow> syncEpochs_loop fetchPlatformEpoch dbOk (epochNum - 1) st')
      else st)"
  by pat_completeness auto
termination
  by (relation "measure (\<lambda>(f, d, epochNum, st). nat (epochNum + 1))") auto

declare syncEpochs_loop.simps [simp del]

text \<open>
  \<open>syncAllPlatformEpochs\<close>: \<open>currentEpoch\<close> is \<open>status?.epoch?.number\<close>, \<open>None\<close> when the
  status fetch failed or has no epoch; the number 0 is falsy as well. The result is the
  count returned and the table.
\<close>

definition syncAllPlatformEpochs ::
  "int option \<Rightarrow> (int \<Rightarrow> EpochResponse option) \<Rightarrow> (int \<Rightarrow> bool) \<Rightarrow> PlatformEpochFee list
     \<Rightarrow> int \<times> PlatformEpochFee list" where
  "syncAllPlatformEpochs currentEpoch fetchPlatformEpoch dbOk tbl =
     (case currentEpoch of
        None \<Rightarrow> (0, tbl)
      | Some n \<Rightarrow>
          if n = 0 then (0, tbl)
          else (let st = syncEpochs_loop fetchPlatformEpoch dbOk n
                           \<lparr> epochTable = tbl, epochsInserted = 0, epochDelays = [] \<rparr>
                in (epochsInserted st, epochTable st)))"

text \<open>
  The fields of a stored epoch that no later sync may change, and the relation between the
  table before and after a sync that says so: every row of the old table is still there,
  at its place, with these fields as they were.
\<close>

definition epoch_frame :: "PlatformEpochFee \<Rightarrow> int \<times> int \<times> int" where
  "epoch_frame r = (epochNumber r, startTime r, feeMultiplier r)"

definition frame_kept :: "PlatformEpochFee list \<Rightarrow> PlatformEpochFee list \<Rightarrow> bool" where
  "frame_kept old new \<longleftrightarrow>
     length old \<le> length new
     \<and> map epoch_frame (take (length old) new) = map epoch_frame old"

fun step_state :: "'a loop_step \<Rightarrow> 'a" where
  "step_state (Continue s) = s"
| "step_state (Break s) = s"

text \<open>
  What the iteration for \<open>epochNum\<close> is about to do, read off the fetched answer: the
  epoch number under which it writes (\<open>None\<close> when the fetch failed or the answer has no
  epoch, so that the iteration is skipped), and whether the answer is older than the cutoff,
  so that the walk stops there.
\<close>

definition fetched_number :: "(int \<Rightarrow> EpochResponse option) \<Rightarrow> int \<Rightarrow> int option" where
  "fetched_number fetchPlatformEpoch epochNum =
     (case fetchPlatformEpoch epochNum of
        None \<Rightarrow> None
      | Some ep \<Rightarrow> map_option number (epoch ep))"

definition too_old :: "(int \<Rightarrow> EpochResponse option) \<Rightarrow> int \<Rightarrow> bool" where
  "too_old fetchPlatformEpoch epochNum =
     (case fetchPlatformEpoch epochNum of
        None \<Rightarrow> False
      | Some ep \<Rightarrow>
          (case epoch ep of
             None \<Rightarrow> False
           | Some e \<Rightarrow>
               real_of_int (info_startTime e) / 1000 < real_of_int JAN_1_2026_UNIX))"

text \<open>Reading the stored epoch with a given number, as a query by primary key does.\<close>

definition lookup_epoch :: "PlatformEpochFee list \<Rightarrow> int \<Rightarrow> PlatformEpochFee option" where
  "lookup_epoch tbl n = find (\<lambda>r. epochNumber r = n) tbl"

text \<open>The stored block rows with a given hash.\<close>

definition rows_with_hash :: "CoreBlockFee list \<Rightarrow> string \<Rightarrow> CoreBlockFee list" where
  "rows_with_hash tbl h = filter (\<lambda>r. row_hash r = h) tbl"

section \<open>Block sync: the world and the state of the server\<close>

text \<open>
  What the code reads from outside the process. \<open>fetchBlockViaRpc\<close> and
  \<open>fetchBlockViaInsight\<close> give the outcome of one fetch of a height (\<open>None\<close> for the
  \<open>null\<close> both return on any failure); since the network changes with time, they are
  indexed by the number of the batch in which the fetch is issued, and so are the outcomes
  of the database statements: \<open>insertOk n h\<close> says whether the insert of the block fetched
  for height \<open>h\<close> in batch \<open>n\<close> succeeds, \<open>setSyncOk n\<close> whether \<open>setSyncValue\<close> after batch
  \<open>n\<close> does. \<open>selectOk\<close> stands for the \<open>select\<close> statements at the start of a
  controller, \<open>setTargetOk\<close> for the write of \<open>backfill_target_height\<close>, \<open>coreStatus\<close> for
  \<open>status?.height\<close> of \<open>fetchCoreStatus()\<close> and \<open>nowMs\<close> for \<open>Date.now()\<close>.
  \<open>ceilBlocksSinceJan1 s\<close> is \<open>Math.ceil(s * (1 / 150))\<close> as double arithmetic gives it: the
  product is rounded, so the result is the exact ceiling or, for some \<open>s\<close>, one more.
\<close>

record world =
  configured :: bool
  probeOk :: bool
  selectOk :: bool
  setTargetOk :: bool
  nowMs :: int
  ceilBlocksSinceJan1 :: "int \<Rightarrow> int"
  coreStatus :: "int option"
  fetchBlockViaRpc :: "nat \<Rightarrow> int \<Rightarrow> BlockData option"
  fetchBlockViaInsight :: "nat \<Rightarrow> int \<Rightarrow> BlockData option"
  insertOk :: "nat \<Rightarrow> int \<Rightarrow> bool"
  setSyncOk :: "nat \<Rightarrow> bool"

text \<open>
  The module variables, the two tables the block controllers use (the checkpoints
  \<open>backfill_target_height\<close> and \<open>backfill_oldest_height\<close> of \<open>sync_state\<close> are stored as
  decimal strings and read back with \<open>parseInt\<close>; they are integers here), and two logs of
  what the code did: the heights passed to \<open>fetchBlock\<close> and the waits passed to
  \<open>delay\<close>, in order.
\<close>

record server =
  backfillRunning :: bool
  backfillProgress :: BackfillProgress
  rpcAvailable :: "bool option"
  coreBlockFees :: "CoreBlockFee list"
  backfill_target_height :: "int option"
  backfill_oldest_height :: "int option"
  fetchLog :: "int list"
  delayLog :: "int list"

text \<open>\<open>MAX(height)\<close> and \<open>MIN(height)\<close> are \<open>null\<close> on an empty table.\<close>

fun sql_max :: "int list \<Rightarrow> int option" where
  "sql_max [] = None"
| "sql_max (x # xs) = Some (fold max xs x)"

fun sql_min :: "int list \<Rightarrow> int option" where
  "sql_min [] = None"
| "sql_min (x # xs) = Some (fold min xs x)"

text \<open>
  \<open>fetchBlock\<close>: the privileged source first when it is available, the public one when it
  is not or when the privileged fetch failed. The verdict \<open>useRpc\<close> is the one the
  controller obtained before its loop; the timer that resets it is not interleaved.
\<close>

definition fetchBlock :: "world \<Rightarrow> bool \<Rightarrow> nat \<Rightarrow> int \<Rightarrow> BlockData option" where
  "fetchBlock w useRpc n h =
     (if useRpc then
        (case fetchBlockViaRpc w n h of
           Some result \<Rightarrow> Some result
         | None \<Rightarrow> fetchBlockViaInsight w n h)
      else fetchBlockViaInsight w n h)"

section \<open>Forward sync\<close>

definition sync_batchSize :: "bool \<Rightarrow> int" where
  "sync_batchSize useRpc = (if useRpc then 10 else 2)"

definition sync_batchDelay :: "bool \<Rightarrow> int" where
  "sync_batchDelay useRpc = (if useRpc then 100 else 2000)"

text \<open>
  \<open>for (let j = i; j < Math.min(i + batchSize, toFetch); j++)
  batch.push(fetchBlock(startHeight - j))\<close>: the heights of one batch.
\<close>

function sync_batch :: "int \<Rightarrow> int \<Rightarrow> int \<Rightarrow> int list" where
  "sync_batch startHeight bound j =
     (if j < bound then (startHeight - j) # sync_batch startHeight bound (j + 1) else [])"
  by pat_completeness auto
termination
  by (relation "measure (\<lambda>(startHeight, bound, j). nat (bound - j))") auto

declare sync_batch.simps [simp del]

text \<open>
  \<open>for (const r of results) if (r.status === "fulfilled" && r.value) { ... if (await
  insertBlockRow(row)) inserted++ }\<close> over the settled fetches of a batch.
\<close>

fun sync_results ::
  "(int \<Rightarrow> BlockData option) \<Rightarrow> (int \<Rightarrow> bool) \<Rightarrow> int list \<Rightarrow> CoreBlockFee list \<times> int
     \<Rightarrow> CoreBlockFee list \<times> int" where
  "sync_results fetch ok [] acc = acc"
| "sync_results fetch ok (h # hs) (tbl, inserted) =
     (case fetch h of
        None \<Rightarrow> sync_results fetch ok hs (tbl, inserted)
      | Some b \<Rightarrow>
          (let res = insertBlockRow (ok h) tbl (blockDataToRow b)
           in sync_results fetch ok hs
                (snd res, if fst res then inserted + 1 else inserted)))"

record forward_state = server +
  fwd_inserted :: int

text \<open>
  The body of \<open>for (let i = 0; i < toFetch; i += batchSize)\<close>: the batch with number
  \<open>i / batchSize\<close> is fetched and stored, then the loop waits unless the batch was the last.
\<close>

definition forward_batch ::
  "world \<Rightarrow> bool \<Rightarrow> int \<Rightarrow> int \<Rightarrow> int \<Rightarrow> forward_state \<Rightarrow> forward_state" where
  "forward_batch w useRpc toFetch startHeight i st =
     (let n = nat (i div sync_batchSize useRpc);
          batch = sync_batch startHeight (min (i + sync_batchSize useRpc) toFetch) i;
          res = sync_results (fetchBlock w useRpc n) (insertOk w n) batch
                  (coreBlockFees st, fwd_inserted st);
          st1 = st\<lparr> coreBlockFees := fst res, fetchLog := fetchLog st @ batch,
                    fwd_inserted := snd res \<rparr>
      in if i + sync_batchSize useRpc < toFetch
         then st1\<lparr> delayLog := delayLog st1 @ [sync_batchDelay useRpc] \<rparr>
         else st1)"

function forward_loop ::
  "world \<Rightarrow> bool \<Rightarrow> int \<Rightarrow> int \<Rightarrow> int \<Rightarrow> forward_state \<Rightarrow> forward_state" where
  "forward_loop w useRpc toFetch startHeight i st =
     (if i < toFetch then
        forward_loop w useRpc toFetch startHeight (i + sync_batchSize useRpc)
          (forward_batch w useRpc toFetch startHeight i st)
      else st)"
  by pat_completeness auto
termination
  by (relation "measure (\<lambda>(w, useRpc, toFetch, startHeight, i, st). nat (toFetch - i))")
    (auto simp: sync_batchSize_def)

declare forward_loop.simps [simp del]

text \<open>
  \<open>syncNewCoreBlocks\<close>. A failing \<open>select\<close> is caught by the outer \<open>catch\<close>, which returns
  0. \<open>fetchCoreStatus\<close> asks \<open>checkRpcAvailability\<close> first, which fixes the verdict. The
  result is the count returned and the state of the server.
\<close>

definition syncNewCoreBlocks :: "world \<Rightarrow> server \<Rightarrow> int \<times> server" where
  "syncNewCoreBlocks w s =
     (if \<not> selectOk w then (0, s)
      else
        (let highestCached = js_or (sql_max (map row_height (coreBlockFees s))) 0;
             chk = checkRpcAvailability (configured w) (probeOk w) (rpcAvailable s);
             s1 = s\<lparr> rpcAvailable := verdict chk \<rparr>
         in case coreStatus w of
              None \<Rightarrow> (0, s1)
            | Some currentHeight \<Rightarrow>
                if currentHeight = 0 then (0, s1)
                else if highestCached \<noteq> 0 \<and> currentHeight \<le> highestCached then (0, s1)
                else
                  (let toFetch = (if highestCached \<noteq> 0
                                  then min (currentHeight - highestCached) 50 else 20);
                       startHeight = currentHeight;
                       useRpc = answer (checkRpcAvailability (configured w) (probeOk w)
                                         (rpcAvailable s1));
                       st = forward_loop w useRpc toFetch startHeight 0
                              (server.extend s1 \<lparr> fwd_inserted = 0 \<rparr>)
                   in (fwd_inserted st, server.truncate st))))"

section \<open>Backfill\<close>

definition BATCH_SIZE :: "bool \<Rightarrow> int" where
  "BATCH_SIZE useRpc = (if useRpc then 20 else 2)"

definition DELAY_MS :: "bool \<Rightarrow> int" where
  "DELAY_MS useRpc = (if useRpc then 50 else 2000)"

definition ERROR_BACKOFF :: "bool \<Rightarrow> int" where
  "ERROR_BACKOFF useRpc = (if useRpc then 2000 else 15000)"

text \<open>\<open>const backoff = ERROR_BACKOFF * Math.min(consecutiveErrors, 6)\<close>.\<close>

definition backoff :: "bool \<Rightarrow> int \<Rightarrow> int" where
  "backoff useRpc consecutiveErrors = ERROR_BACKOFF useRpc * min consecutiveErrors 6"

text \<open>
  \<open>estimateTargetHeight\<close>: the saved target when there is one; otherwise the highest cached
  height less the blocks since the cutoff at 150 seconds a block (the rounded-up double
  product that the world gives), which is saved; 2396800 when no height is cached. \<open>Inl\<close>
  is an exception of the database.
\<close>

definition estimateTargetHeight :: "world \<Rightarrow> server \<Rightarrow> db_error + int \<times> server" where
  "estimateTargetHeight w s =
     (if \<not> selectOk w then Inl DbError
      else
        (case backfill_target_height s of
           Some saved \<Rightarrow> Inr (saved, s)
         | None \<Rightarrow>
            (let latestHeight = js_or (sql_max (map row_height (coreBlockFees s))) 0
             in if latestHeight \<noteq> 0 then
                  (let now = nowMs w div 1000;
                       secondsSinceJan1 = now - JAN_1_2026_UNIX;
                       blocksSinceJan1 = ceilBlocksSinceJan1 w secondsSinceJan1;
                       target = latestHeight - blocksSinceJan1
                   in if setTargetOk w
                      then Inr (target, s\<lparr> backfill_target_height := Some target \<rparr>)
                      else Inl DbError)
                else Inr (2396800, s))))"

text \<open>
  \<open>for (let i = 0; i < BATCH_SIZE && currentHeight - i >= targetHeight; i++)
  batch.push(fetchBlock(currentHeight - i))\<close>.
\<close>

function backfill_batch :: "int \<Rightarrow> int \<Rightarrow> int \<Rightarrow> int \<Rightarrow> int list" where
  "backfill_batch batchSize currentH targetH i =
     (if i < batchSize \<and> targetH \<le> currentH - i
      then (currentH - i) # backfill_batch batchSize currentH targetH (i + 1)
      else [])"
  by pat_completeness auto
termination
  by (relation "measure (\<lambda>(batchSize, currentH, targetH, i). nat (batchSize - i))") auto

declare backfill_batch.simps [simp del]

text \<open>
  The loop over the settled fetches of a backfill batch; the accumulator is the table,
  \<open>batchInserted\<close> and \<open>anyFailed\<close>.
\<close>

fun backfill_results ::
  "(int \<Rightarrow> BlockData option) \<Rightarrow> (int \<Rightarrow> bool) \<Rightarrow> int list
     \<Rightarrow> CoreBlockFee list \<times> int \<times> bool \<Rightarrow> CoreBlockFee list \<times> int \<times> bool" where
  "backfill_results fetch ok [] acc = acc"
| "backfill_results fetch ok (h # hs) (tbl, batchInserted, anyFailed) =
     (case fetch h of
        None \<Rightarrow> backfill_results fetch ok hs (tbl, batchInserted, True)
      | Some b \<Rightarrow>
          if JAN_1_2026_UNIX \<le> time b then
            (let res = insertBlockRow (ok h) tbl (blockDataToRow b)
             in backfill_results fetch ok hs
                  (snd res, if fst res then batchInserted + 1 else batchInserted, anyFailed))
          else backfill_results fetch ok hs (tbl, batchInserted, anyFailed))"

text \<open>The local variables of the walk, added to the state of the server.\<close>

record backfill_state = server +
  currentHeight :: int
  consecutiveErrors :: int
  totalInserted :: int
  batchNo :: nat

datatype 'a outcome = Completed 'a | Threw 'a

text \<open>
  One iteration of \<open>while (currentHeight >= targetHeight && backfillRunning)\<close>. The only
  statement of the body that can throw is \<open>setSyncValue\<close>.
\<close>

definition backfill_step ::
  "world \<Rightarrow> bool \<Rightarrow> int \<Rightarrow> int \<Rightarrow> backfill_state \<Rightarrow> backfill_state outcome" where
  "backfill_step w useRpc oldestCached targetH st =
     (let n = batchNo st;
          batch = backfill_batch (BATCH_SIZE useRpc) (currentHeight st) targetH 0;
          res = backfill_results (fetchBlock w useRpc n) (insertOk w n) batch
                  (coreBlockFees st, 0, False);
          batchInserted = fst (snd res);
          anyFailed = snd (snd res);
          st1 = st\<lparr> coreBlockFees := fst res, fetchLog := fetchLog st @ batch,
                    batchNo := Suc n \<rparr>
      in if anyFailed \<and> batchInserted = 0 then
           (let errs = consecutiveErrors st + 1
            in Completed (st1\<lparr> delayLog := delayLog st1 @ [backoff useRpc errs],
                               consecutiveErrors := errs \<rparr>))
         else
           (let total = totalInserted st + batchInserted;
                cur = currentHeight st - BATCH_SIZE useRpc;
                st2 = st1\<lparr> backfillProgress :=
                             (backfillProgress st1)\<lparr> totalDone := (oldestCached - 1) - cur,
                                                      oldestHeight := cur + 1 \<rparr>,
                          currentHeight := cur,
                          consecutiveErrors := 0,
                          totalInserted := total \<rparr>
            in if js_rem total 200 = 0 \<and> 0 < total then
                 (if setSyncOk w n
                  then Completed (st2\<lparr> backfill_oldest_height := Some cur,
                                        delayLog := delayLog st2 @ [DELAY_MS useRpc] \<rparr>)
                  else Threw st2)
               else Completed (st2\<lparr> delayLog := delayLog st2 @ [DELAY_MS useRpc] \<rparr>)))"

datatype 'a run = Finished 'a | Aborted 'a | OutOfFuel 'a

fun run_state :: "'a run \<Rightarrow> 'a" where
  "run_state (Finished s) = s"
| "run_state (Aborted s) = s"
| "run_state (OutOfFuel s) = s"



text \<open>
  The loop can go on for ever (a batch that keeps failing is retried for ever), so it runs
  on fuel: \<open>OutOfFuel\<close> carries the state reached when the fuel is used up, \<open>Aborted\<close> the
  state at an exception, \<open>Finished\<close> the state at the exit of the loop.
\<close>

fun backfill_loop ::
  "nat \<Rightarrow> world \<Rightarrow> bool \<Rightarrow> int \<Rightarrow> int \<Rightarrow> backfill_state \<Rightarrow> backfill_state run" where
  "backfill_loop 0 w useRpc oldestCached targetH st =
     (if targetH \<le> currentHeight st \<and> backfillRunning st then OutOfFuel st else Finished st)"
| "backfill_loop (Suc fuel) w useRpc oldestCached targetH st =
     (if targetH \<le> currentHeight st \<and> backfillRunning st then
        (case backfill_step w useRpc oldestCached targetH st of
           Threw st' \<Rightarrow> Aborted st'
         | Completed st' \<Rightarrow> backfill_loop fuel w useRpc oldestCached targetH st')
      else Finished st)"

text \<open>The \<open>catch\<close> and \<open>finally\<close> of \<open>startCoreBackfill\<close>.\<close>

definition backfill_failed :: "server \<Rightarrow> server" where
  "backfill_failed s =
     s\<lparr> backfillRunning := False,
        backfillProgress := (backfillProgress s)\<lparr> status := ''error'' \<rparr> \<rparr>"

text \<open>
  What follows the loop: the final checkpoint and the status, or the \<open>catch\<close> when the
  loop or the checkpoint threw. A loop that did not return leaves the state it reached.
\<close>

definition backfill_epilogue :: "world \<Rightarrow> int \<Rightarrow> backfill_state run \<Rightarrow> server run" where
  "backfill_epilogue w targetH r =
     (case r of
        OutOfFuel st' \<Rightarrow> OutOfFuel (server.truncate st')
      | Aborted st' \<Rightarrow> Finished (backfill_failed (server.truncate st'))
      | Finished st' \<Rightarrow>
          if setSyncOk w (batchNo st') then
            Finished ((server.truncate st')
              \<lparr> backfillRunning := False,
                backfillProgress :=
                  (backfillProgress st')
                    \<lparr> status := (if currentHeight st' \<le> targetH
                                  then ''complete'' else ''paused'') \<rparr>,
                backfill_oldest_height := Some (currentHeight st') \<rparr>)
          else Finished (backfill_failed (server.truncate st')))"

definition startCoreBackfill :: "nat \<Rightarrow> world \<Rightarrow> server \<Rightarrow> server run" where
  "startCoreBackfill fuel w s =
     (if backfillRunning s then Finished s
      else if \<not> selectOk w then Finished (backfill_failed s)
      else
        (let oldestCached = js_or (sql_min (map row_height (coreBlockFees s))) 0
         in if oldestCached = 0 then Finished (s\<lparr> backfillRunning := False \<rparr>)
            else
              (case estimateTargetHeight w s of
                 Inl err \<Rightarrow> Finished (backfill_failed s)
               | Inr (targetH, s1) \<Rightarrow>
                   if oldestCached \<le> targetH then
                     Finished (s1\<lparr> backfillRunning := False,
                                   backfillProgress :=
                                     (backfillProgress s1)\<lparr> status := ''complete'' \<rparr> \<rparr>)
                   else
                     (let chk = checkRpcAvailability (configured w) (probeOk w)
                                  (rpcAvailable s1);
                          useRpc = answer chk;
                          s2 = s1\<lparr> backfillRunning := True,
                                   backfillProgress :=
                                     \<lparr> totalNeeded = oldestCached - targetH,
                                       totalDone = 0,
                                       oldestHeight = oldestCached,
                                       targetHeight = targetH,
                                       status = ''running'' \<rparr>,
                                   rpcAvailable := verdict chk \<rparr>;
                          st = server.extend s2
                                 \<lparr> currentHeight = oldestCached - 1, consecutiveErrors = 0,
                                   totalInserted = 0, batchNo = 0 \<rparr>
                      in backfill_epilogue w targetH
                           (backfill_loop fuel w useRpc oldestCached targetH st)))))"

fun outcome_state :: "'a outcome \<Rightarrow> 'a" where
  "outcome_state (Completed s) = s"
| "outcome_state (Threw s) = s"

section \<open>Masternode counts\<close>

record MnCounts =
  totalMasternodes :: int
  evoNodes :: int

text \<open>The module variable \<open>cachedMnCounts\<close>, when it is not \<open>null\<close>.\<close>

record MnCache =
  cache_total :: int
  cache_enabled :: int
  cache_evoTotal :: int
  cache_evoEnabled :: int
  cache_fetchedAt :: int

definition MN_COUNT_CACHE_MS :: int where
  "MN_COUNT_CACHE_MS = 300000"

text \<open>The JSON values the code compares with \<open>===\<close>.\<close>

datatype jsval = JNum int | JStr string | JUndefined

record ProtxState =
  state_type :: jsval
  state_status :: jsval
  state_PoSePenalty :: jsval

record ProtxEntry =
  entry_type :: jsval
  entry_state :: "ProtxState option"

text \<open>The answer of the RPC \<open>masternode count\<close>; each field may be absent.\<close>

record MasternodeCount =
  count_total :: "int option"
  count_enabled :: "int option"
  count_stable :: "int option"

text \<open>
  What \<open>fetchMasternodeCounts\<close> reads from outside. For each remote call the outer
  \<open>None\<close> is an exception. \<open>dashCentral\<close> holds \<open>general.consensus_masternodes\<close> and
  \<open>general.consensus_masternodes_weighted\<close>; \<open>rpcMasternodeCount\<close> the answer of
  \<open>masternode count\<close>, which may be \<open>null\<close>; \<open>rpcProtxList\<close> the answer of \<open>protx list\<close>,
  with \<open>Some None\<close> for an answer that is not an array. \<open>persistedCounts\<close> is the
  checkpoint \<open>masternode_counts\<close> after \<open>JSON.parse\<close>: \<open>Inl\<close> when the read or the parse
  throws, \<open>Inr None\<close> when nothing is stored.
\<close>

record mn_world =
  mn_nowMs :: int
  dashCentral :: "(int option \<times> int option) option"
  mn_configured :: bool
  mn_probeOk :: bool
  rpcMasternodeCount :: "MasternodeCount option option"
  rpcProtxList :: "ProtxEntry list option option"
  persistedCounts :: "db_error + MnCounts option"

text \<open>\<open>Math.round\<close> rounds to the nearest integer, halves upwards.\<close>

definition js_round :: "real \<Rightarrow> int" where
  "js_round x = \<lfloor>x + 1 / 2\<rfloor>"

text \<open>The loop over \<open>protxList\<close> counting the enabled Evo nodes.\<close>

fun count_evoEnabled :: "ProtxEntry list \<Rightarrow> int \<Rightarrow> int" where
  "count_evoEnabled [] evoEnabled = evoEnabled"
| "count_evoEnabled (entry # rest) evoEnabled =
     (let isEvo = (entry_type entry = JNum 1 \<or> entry_type entry = JStr ''evo''
                   \<or> map_option state_type (entry_state entry) = Some (JNum 1));
          ok = (map_option state_status (entry_state entry) = Some (JNum 0)
                \<or> map_option state_PoSePenalty (entry_state entry) = Some (JNum 0))
      in count_evoEnabled rest (if isEvo \<and> ok then evoEnabled + 1 else evoEnabled))"

text \<open>
  The first \<open>try\<close> block: the third-party API. \<open>None\<close> means that the block did not
  return, so that the function goes on with the next source.
\<close>

definition counts_from_dashCentral :: "mn_world \<Rightarrow> (MnCounts \<times> MnCache) option" where
  "counts_from_dashCentral w =
     (case dashCentral w of
        None \<Rightarrow> None
      | Some (u, wt) \<Rightarrow>
          (let unique = js_or u 0; weighted = js_or wt 0
           in if 0 < unique \<and> 0 < weighted then
                (let evoCount = js_round (real_of_int (weighted - unique) / 3)
                 in Some (\<lparr> totalMasternodes = unique, evoNodes = evoCount \<rparr>,
                          \<lparr> cache_total = unique, cache_enabled = unique,
                            cache_evoTotal = evoCount, cache_evoEnabled = evoCount,
                            cache_fetchedAt = mn_nowMs w \<rparr>))
              else None))"

text \<open>The second \<open>try\<close> block, entered when \<open>useRpc\<close> holds: the privileged RPC.\<close>

definition counts_from_rpc :: "mn_world \<Rightarrow> (MnCounts \<times> MnCache) option" where
  "counts_from_rpc w =
     (case rpcMasternodeCount w of
        None \<Rightarrow> None
      | Some countResult \<Rightarrow>
          (let total = js_or (Option.bind countResult count_total) 0;
               enabled = js_or (Option.bind countResult count_enabled)
                           (js_or (Option.bind countResult count_stable) total)
           in case rpcProtxList w of
                None \<Rightarrow> None
              | Some protxList \<Rightarrow>
                  (let evoEnabled = (case protxList of
                                       None \<Rightarrow> 0
                                     | Some entries \<Rightarrow> count_evoEnabled entries 0)
                   in Some (\<lparr> totalMasternodes = enabled, evoNodes = evoEnabled \<rparr>,
                            \<lparr> cache_total = total, cache_enabled = enabled,
                              cache_evoTotal = evoEnabled, cache_evoEnabled = evoEnabled,
                              cache_fetchedAt = mn_nowMs w \<rparr>))))"

text \<open>The third \<open>try\<close> block: the persisted checkpoint.\<close>

definition counts_from_checkpoint :: "mn_world \<Rightarrow> (MnCounts \<times> MnCache) option" where
  "counts_from_checkpoint w =
     (case persistedCounts w of
        Inl err \<Rightarrow> None
      | Inr None \<Rightarrow> None
      | Inr (Some parsed) \<Rightarrow>
          if 0 < evoNodes parsed \<and> 0 < totalMasternodes parsed then
            Some (parsed,
                  \<lparr> cache_total = totalMasternodes parsed,
                    cache_enabled = totalMasternodes parsed,
                    cache_evoTotal = evoNodes parsed, cache_evoEnabled = evoNodes parsed,
                    cache_fetchedAt = mn_nowMs w \<rparr>)
          else None)"

text \<open>The state \<open>fetchMasternodeCounts\<close> reads and writes.\<close>

record mn_state =
  cachedMnCounts :: "MnCache option"
  mn_rpcAvailable :: "bool option"

definition hardcoded_default :: MnCounts where
  "hardcoded_default = \<lparr> totalMasternodes = 3700, evoNodes = 334 \<rparr>"

definition fetchMasternodeCounts :: "mn_world \<Rightarrow> mn_state \<Rightarrow> MnCounts \<times> mn_state" where
  "fetchMasternodeCounts w s =
     (case (case cachedMnCounts s of
              None \<Rightarrow> None
            | Some c \<Rightarrow> if mn_nowMs w - cache_fetchedAt c < MN_COUNT_CACHE_MS
                         then Some c else None) of
        Some c \<Rightarrow> (\<lparr> totalMasternodes = cache_enabled c, evoNodes = cache_evoEnabled c \<rparr>, s)
      | None \<Rightarrow>
         (case counts_from_dashCentral w of
            Some (counts, c) \<Rightarrow> (counts, s\<lparr> cachedMnCounts := Some c \<rparr>)
          | None \<Rightarrow>
             (let chk = checkRpcAvailability (mn_configured w) (mn_probeOk w)
                          (mn_rpcAvailable s);
                  useRpc = answer chk;
                  s1 = s\<lparr> mn_rpcAvailable := verdict chk \<rparr>
              in case (if useRpc then counts_from_rpc w else None) of
                   Some (counts, c) \<Rightarrow> (counts, s1\<lparr> cachedMnCounts := Some c \<rparr>)
                 | None \<Rightarrow>
                    (case counts_from_checkpoint w of
                       Some (counts, c) \<Rightarrow> (counts, s1\<lparr> cachedMnCounts := Some c \<rparr>)
                     | None \<Rightarrow> (hardcoded_default, s1)))))"

section \<open>Sample inputs\<close>

text \<open>
  Concrete blocks, worlds and states on which the theorems below are instantiated. The
  sample chain has one block per height, its hash made of the decimal digits of the
  height and its time 150 seconds after that of its parent; the block at height 101 is the
  first one at the cutoff.
\<close>

definition digit_char :: "int \<Rightarrow> char" where
  "digit_char d =
     (if d = 0 then CHR ''0'' else if d = 1 then CHR ''1'' else if d = 2 then CHR ''2''
      else if d = 3 then CHR ''3'' else if d = 4 then CHR ''4'' else if d = 5 then CHR ''5''
      else if d = 6 then CHR ''6'' else if d = 7 then CHR ''7'' else if d = 8 then CHR ''8''
      else CHR ''9'')"

definition sample_hash :: "int \<Rightarrow> string" where
  "sample_hash h =
     map (\<lambda>p. digit_char (h div p mod 10)) [1000000, 100000, 10000, 1000, 100, 10, 1]"

definition sample_block :: "int \<Rightarrow> BlockData" where
  "sample_block h =
     \<lparr> hash = sample_hash h, height = h, time = JAN_1_2026_UNIX + 150 * (h - 101),
       txCount = 3, totalFees = 1 / 100, subsidy = 3 / 2 \<rparr>"

definition idle_progress :: BackfillProgress where
  "idle_progress =
     \<lparr> totalNeeded = 0, totalDone = 0, oldestHeight = 0, targetHeight = 0,
       status = ''idle'' \<rparr>"

text \<open>A server at start-up with the given cached rows and saved backfill target.\<close>

definition idle_server :: "CoreBlockFee list \<Rightarrow> int option \<Rightarrow> server" where
  "idle_server rows target =
     \<lparr> backfillRunning = False, backfillProgress = idle_progress, rpcAvailable = None,
       coreBlockFees = rows, backfill_target_height = target,
       backfill_oldest_height = None, fetchLog = [], delayLog = [] \<rparr>"

text \<open>No RPC credentials; the public source and the database answer every request.\<close>

definition public_world :: world where
  "public_world =
     \<lparr> configured = False, probeOk = False, selectOk = True, setTargetOk = True,
       nowMs = 1770000000000,
       ceilBlocksSinceJan1 = (\<lambda>s. \<lceil>real_of_int s / 150\<rceil>),
       coreStatus = Some 2400000,
       fetchBlockViaRpc = (\<lambda>n h. None),
       fetchBlockViaInsight = (\<lambda>n h. Some (sample_block h)),
       insertOk = (\<lambda>n h. True), setSyncOk = (\<lambda>n. True) \<rparr>"



text \<open>
  The third-party API is down, the privileged node answers but has no masternode list yet,
  and no counts were ever persisted.
\<close>

definition unsynced_node_world :: mn_world where
  "unsynced_node_world =
     \<lparr> mn_nowMs = 1770000000000, dashCentral = None, mn_configured = True,
       mn_probeOk = True,
       rpcMasternodeCount =
         Some (Some \<lparr> count_total = Some 0, count_enabled = Some 0, count_stable = None \<rparr>),
       rpcProtxList = Some (Some []),
       persistedCounts = Inr None \<rparr>"

text \<open>
  Two states of the explorer, one sync apart. Epoch 42 is the current one and epoch 41 the
  one before; epoch 40 started before the cutoff. Between the first and the second sync
  the fees collected in epoch 41 grow from 500 to 900, and the explorer reports another
  start time and fee multiplier for it.
\<close>

definition epoch_answer :: "int \<Rightarrow> int \<Rightarrow> int \<Rightarrow> json_number \<Rightarrow> int \<Rightarrow> EpochResponse" where
  "epoch_answer n start end mult fees =
     \<lparr> epoch = Some \<lparr> number = n, info_startTime = start, info_endTime = end,
                       info_feeMultiplier = mult \<rparr>,
       resp_totalCollectedFees = Num fees \<rparr>"

definition explorer_first :: "int \<Rightarrow> EpochResponse option" where
  "explorer_first epochNum =
     (if epochNum = 42 then Some (epoch_answer 42 1767400000000 1767486400000 (Num 1) 10)
      else if epochNum = 41
        then Some (epoch_answer 41 1767313600000 1767400000000 (Num 1) 500)
      else if epochNum = 40
        then Some (epoch_answer 40 1767139200000 1767225600000 (Num 1) 300)
      else None)"

definition explorer_second :: "int \<Rightarrow> EpochResponse option" where
  "explorer_second epochNum =
     (if epochNum = 42 then Some (epoch_answer 42 1767400000000 1767486400000 (Num 1) 70)
      else if epochNum = 41
        then Some (epoch_answer 41 1767313600777 1767400000999 (NumStr 2) 900)
      else if epochNum = 40
        then Some (epoch_answer 40 1767139200000 1767225600000 (Num 1) 300)
      else None)"

section \<open>Properties\<close>

subsection \<open>Subsidy schedule\<close>

lemma subsidy_loop_closed:
  "subsidy_loop i r s = s * (13 / 14) ^ nat (r - i)"
proof (induction i r s rule: subsidy_loop.induct)
  case (1 i reductions s)
  show ?case
  proof (cases "i < reductions")
    case True
    then have n: "nat (reductions - i) = Suc (nat (reductions - (i + 1)))"
      by simp
    have "subsidy_loop i reductions s = subsidy_loop (i + 1) reductions (s - s / 14)"
      using True by (subst subsidy_loop.simps) simp
    also have "\<dots> = (s - s / 14) * (13 / 14) ^ nat (reductions - (i + 1))"
      using "1.IH" [OF True] .
    also have "\<dots> = s * (13 / 14) ^ nat (reductions - i)"
      unfolding n by (simp add: field_simps)
    finally show ?thesis .
  next
    case False
    then show ?thesis by (subst subsidy_loop.simps) simp
  qed
qed

lemma getBlockSubsidy_closed:
  "getBlockSubsidy h = 5 * (13 / 14) ^ nat (h div reductionInterval)"
  by (simp add: getBlockSubsidy_def subsidy_loop_closed)

text \<open>
  Claim C5. Within one reduction era the subsidy is constant: heights \<open>h1 < h2\<close> with the
  same quotient by the reduction interval get the same subsidy. One reduction interval later
  the subsidy of a block height (a non-negative index) is the earlier one times \<open>13/14\<close>;
  over the reals the relation is exact, which is the floating tolerance of the claim taken
  to zero.
\<close>

theorem getBlockSubsidy_era_decay:
  "(h1 < h2 \<and> h1 div reductionInterval = h2 div reductionInterval
      \<longrightarrow> getBlockSubsidy h1 = getBlockSubsidy h2)
   \<and> (0 \<le> h \<longrightarrow> getBlockSubsidy (h + reductionInterval) = getBlockSubsidy h * 13 / 14)"
proof (intro conjI impI)
  assume "h1 < h2 \<and> h1 div reductionInterval = h2 div reductionInterval"
  then show "getBlockSubsidy h1 = getBlockSubsidy h2"
    by (simp add: getBlockSubsidy_def)
next
  assume h: "0 \<le> h"
  have q: "(h + reductionInterval) div reductionInterval = h div reductionInterval + 1"
    by (simp add: reductionInterval_def)
  have "0 \<le> h div reductionInterval"
    using h by (simp add: reductionInterval_def pos_imp_zdiv_nonneg_iff)
  then have "nat (h div reductionInterval + 1) = Suc (nat (h div reductionInterval))"
    by simp
  then show "getBlockSubsidy (h + reductionInterval) = getBlockSubsidy h * 13 / 14"
    by (simp add: getBlockSubsidy_closed q)
qed

theorem getBlockSubsidy_era_decay_witness:
  "(0::int) < 210239 \<and> 0 div reductionInterval = 210239 div reductionInterval
   \<and> getBlockSubsidy 0 = getBlockSubsidy 210239
   \<and> (0::int) \<le> 210240
   \<and> getBlockSubsidy (210240 + reductionInterval) = getBlockSubsidy 210240 * 13 / 14"
  using getBlockSubsidy_era_decay [of 0 210239 210240]
  by (simp add: reductionInterval_def)

subsection \<open>Superblock fee suppression\<close>

lemma js_rem_eq_0_iff: "0 < b \<Longrightarrow> js_rem a b = 0 \<longleftrightarrow> a mod b = 0"
proof -
  assume b: "0 < b"
  have "\<bar>a\<bar> mod b = 0 \<longleftrightarrow> a mod b = 0"
    by (metis abs_dvd_iff dvd_abs_iff mod_eq_0_iff_dvd)
  then show ?thesis
    using b by (auto simp: js_rem_def sgn_if)
qed

text \<open>
  Claim C6. For a fetched block whose height is divisible by the superblock cycle, the row
  built for storage has \<open>totalFees\<close> exactly 0, whatever fee the upstream source reported.
\<close>

theorem blockDataToRow_superblock_fees:
  "height block mod superblockCycle = 0 \<Longrightarrow> row_totalFees (blockDataToRow block) = 0"
  by (simp add: blockDataToRow_def isSuperblock_def js_rem_eq_0_iff superblockCycle_def)

theorem blockDataToRow_superblock_fees_witness:
  "height \<lparr> hash = ''00ab'', height = 33232, time = 1767300000, txCount = 7,
            totalFees = 0.25, subsidy = 1.5 \<rparr> mod superblockCycle = 0
   \<and> row_totalFees (blockDataToRow \<lparr> hash = ''00ab'', height = 33232, time = 1767300000,
            txCount = 7, totalFees = 0.25, subsidy = 1.5 \<rparr>) = 0"
  using blockDataToRow_superblock_fees
    [of "\<lparr> hash = ''00ab'', height = 33232, time = 1767300000, txCount = 7,
           totalFees = 0.25, subsidy = 1.5 \<rparr>"]
  by (simp add: superblockCycle_def)

subsection \<open>Idempotent insert\<close>

lemma rows_with_hash_absent:
  "h \<notin> set (map row_hash tbl) \<Longrightarrow> rows_with_hash tbl h = []"
  by (induction tbl) (auto simp: rows_with_hash_def)

lemma rows_with_hash_present:
  "distinct (map row_hash tbl) \<Longrightarrow> h \<in> set (map row_hash tbl)
     \<Longrightarrow> length (rows_with_hash tbl h) = 1"
proof (induction tbl)
  case Nil
  then show ?case by simp
next
  case (Cons r tbl)
  show ?case
  proof (cases "row_hash r = h")
    case True
    with Cons.prems have "h \<notin> set (map row_hash tbl)" by auto
    then have "rows_with_hash tbl h = []" by (rule rows_with_hash_absent)
    with True show ?thesis by (simp add: rows_with_hash_def)
  next
    case False
    with Cons show ?thesis by (auto simp: rows_with_hash_def)
  qed
qed

text \<open>
  Claim C1, as stated, fails: an insert of a row whose hash is stored returns \<open>true\<close>. Here
  the table holds the row of the sample block 2400000 and the same row is inserted again.
\<close>

theorem insertBlockRow_duplicate_counterexample:
  "row_hash (blockDataToRow (sample_block 2400000))
     \<in> set (map row_hash [blockDataToRow (sample_block 2400000)])
   \<and> fst (insertBlockRow True [blockDataToRow (sample_block 2400000)]
            (blockDataToRow (sample_block 2400000))) = True
   \<and> snd (insertBlockRow True [blockDataToRow (sample_block 2400000)]
            (blockDataToRow (sample_block 2400000)))
       = [blockDataToRow (sample_block 2400000)]"
  by (simp add: insertBlockRow_def insert_onConflictDoNothing_def)

text \<open>
  Claim C1, amended. On a table whose hashes are distinct, \<open>insertBlockRow\<close> returns
  \<open>true\<close> exactly when the statement did not throw: with a hash that is stored the table
  is left as it is, with a new hash the row is appended, and in both cases the table then
  holds exactly one row with that hash. It returns \<open>false\<close> only when the database
  failed, and the table is unchanged then. Hashes stay distinct.
\<close>

theorem insertBlockRow_returns_success:
  assumes "distinct (map row_hash tbl)"
  shows "fst (insertBlockRow dbOk tbl row) = dbOk
     \<and> (if \<not> dbOk then snd (insertBlockRow dbOk tbl row) = tbl
         else if row_hash row \<in> set (map row_hash tbl)
           then snd (insertBlockRow dbOk tbl row) = tbl
         else snd (insertBlockRow dbOk tbl row) = tbl @ [row])
     \<and> (dbOk \<longrightarrow> length (rows_with_hash (snd (insertBlockRow dbOk tbl row)) (row_hash row)) = 1)
     \<and> distinct (map row_hash (snd (insertBlockRow dbOk tbl row)))"
proof -
  have 1: "fst (insertBlockRow dbOk tbl row) = dbOk"
    by (simp add: insertBlockRow_def insert_onConflictDoNothing_def)
  have 2: "(if \<not> dbOk then snd (insertBlockRow dbOk tbl row) = tbl
         else if row_hash row \<in> set (map row_hash tbl)
           then snd (insertBlockRow dbOk tbl row) = tbl
         else snd (insertBlockRow dbOk tbl row) = tbl @ [row])"
    by (simp add: insertBlockRow_def insert_onConflictDoNothing_def)
  have 4: "distinct (map row_hash (snd (insertBlockRow dbOk tbl row)))"
    using assms by (auto simp: insertBlockRow_def insert_onConflictDoNothing_def)
  have 3: "length (rows_with_hash (snd (insertBlockRow dbOk tbl row)) (row_hash row)) = 1"
    if "dbOk"
  proof -
    have "row_hash row \<in> set (map row_hash (snd (insertBlockRow dbOk tbl row)))"
      using that by (auto simp: insertBlockRow_def insert_onConflictDoNothing_def)
    with 4 show ?thesis by (simp add: rows_with_hash_present)
  qed
  from 1 2 3 4 show ?thesis by blast
qed

theorem insertBlockRow_returns_success_witness:
  "distinct (map row_hash [blockDataToRow (sample_block 2400000)])
   \<and> fst (insertBlockRow True [blockDataToRow (sample_block 2400000)]
            (blockDataToRow (sample_block 2400000))) = True
   \<and> snd (insertBlockRow True [blockDataToRow (sample_block 2400000)]
            (blockDataToRow (sample_block 2400000)))
       = [blockDataToRow (sample_block 2400000)]
   \<and> length (rows_with_hash
        (snd (insertBlockRow True [blockDataToRow (sample_block 2400000)]
               (blockDataToRow (sample_block 2400000))))
        (row_hash (blockDataToRow (sample_block 2400000)))) = 1
   \<and> fst (insertBlockRow True [blockDataToRow (sample_block 2400000)]
            (blockDataToRow (sample_block 2400001))) = True
   \<and> snd (insertBlockRow True [blockDataToRow (sample_block 2400000)]
            (blockDataToRow (sample_block 2400001)))
       = [blockDataToRow (sample_block 2400000), blockDataToRow (sample_block 2400001)]
   \<and> fst (insertBlockRow False [blockDataToRow (sample_block 2400000)]
            (blockDataToRow (sample_block 2400001))) = False
   \<and> snd (insertBlockRow False [blockDataToRow (sample_block 2400000)]
            (blockDataToRow (sample_block 2400001)))
       = [blockDataToRow (sample_block 2400000)]"
  using insertBlockRow_returns_success
      [of "[blockDataToRow (sample_block 2400000)]" True
          "blockDataToRow (sample_block 2400000)"]
    insertBlockRow_returns_success
      [of "[blockDataToRow (sample_block 2400000)]" True
          "blockDataToRow (sample_block 2400001)"]
    insertBlockRow_returns_success
      [of "[blockDataToRow (sample_block 2400000)]" False
          "blockDataToRow (sample_block 2400001)"]
  by (simp add: insertBlockRow_def insert_onConflictDoNothing_def rows_with_hash_def
      blockDataToRow_def sample_block_def sample_hash_def digit_char_def Let_def)

subsection \<open>Invalidation of the availability verdict\<close>

text \<open>
  Claim C2, as stated, fails: the periodic step leaves a cached \<open>true\<close> as it is, and the
  next check answers \<open>true\<close> without a probe, here although the probe would fail.
\<close>

theorem rpcAvailable_interval_true_counterexample:
  "rpcAvailable_interval (Some True) = Some True
   \<and> probed (checkRpcAvailability True False (rpcAvailable_interval (Some True))) = False
   \<and> answer (checkRpcAvailability True False (rpcAvailable_interval (Some True))) = True"
  by (simp add: rpcAvailable_interval_def checkRpcAvailability_def)

text \<open>
  Claim C2, amended. The periodic step resets a cached \<open>false\<close> or unknown verdict to
  unknown, so that the next check decides afresh: it probes when credentials are
  configured and answers with the outcome of the probe, and answers \<open>false\<close> without a
  probe when they are not. A cached \<open>true\<close> is kept, and the next check answers \<open>true\<close>
  without a probe.
\<close>

theorem rpcAvailable_interval_resets_unless_true:
  "(v \<noteq> Some True \<longrightarrow>
      rpcAvailable_interval v = None
      \<and> checkRpcAvailability cfg pr (rpcAvailable_interval v)
          = \<lparr> answer = (cfg \<and> pr), verdict = Some (cfg \<and> pr), probed = cfg \<rparr>)
   \<and> (v = Some True \<longrightarrow>
      rpcAvailable_interval v = Some True
      \<and> checkRpcAvailability cfg pr (rpcAvailable_interval v)
          = \<lparr> answer = True, verdict = Some True, probed = False \<rparr>)"
  by (simp add: rpcAvailable_interval_def checkRpcAvailability_def)

theorem rpcAvailable_interval_resets_unless_true_witness:
  "Some False \<noteq> Some True
   \<and> rpcAvailable_interval (Some False) = None
   \<and> checkRpcAvailability True True (rpcAvailable_interval (Some False))
        = \<lparr> answer = True, verdict = Some True, probed = True \<rparr>
   \<and> rpcAvailable_interval (Some True) = Some True
   \<and> checkRpcAvailability True False (rpcAvailable_interval (Some True))
        = \<lparr> answer = True, verdict = Some True, probed = False \<rparr>"
  using rpcAvailable_interval_resets_unless_true [of "Some False" True True]
    rpcAvailable_interval_resets_unless_true [of "Some True" True False]
  by (simp add: rpcAvailable_interval_def checkRpcAvailability_def)

subsection \<open>Epoch upsert\<close>

lemma find_map_update:
  "(\<And>r. epochNumber (f r) = epochNumber r) \<Longrightarrow>
   find (\<lambda>r. epochNumber r = n) (map (\<lambda>r. if epochNumber r = n then f r else r) tbl)
     = map_option f (find (\<lambda>r. epochNumber r = n) tbl)"
  by (induction tbl) auto

lemma find_Some_mem: "find P xs = Some x \<Longrightarrow> P x \<and> x \<in> set xs"
  by (induction xs) (auto split: if_splits)

lemma frame_kept_refl: "frame_kept tbl tbl"
  by (simp add: frame_kept_def)

lemma frame_kept_trans:
  assumes "frame_kept a b" and "frame_kept b c"
  shows "frame_kept a c"
proof -
  from assms have len: "length a \<le> length b" "length b \<le> length c"
    and ab: "map epoch_frame (take (length a) b) = map epoch_frame a"
    and bc: "map epoch_frame (take (length b) c) = map epoch_frame b"
    by (simp_all add: frame_kept_def)
  have "take (length a) c = take (length a) (take (length b) c)"
    using len by (simp add: min_def)
  then have "map epoch_frame (take (length a) c)
      = take (length a) (map epoch_frame (take (length b) c))"
    by (simp add: take_map)
  also have "\<dots> = take (length a) (map epoch_frame b)"
    by (simp only: bc)
  also have "\<dots> = map epoch_frame a"
    using ab by (simp add: take_map)
  finally show ?thesis
    using len by (simp add: frame_kept_def)
qed

lemma frame_kept_upsert:
  "insert_onConflictDoUpdate ok tbl v fees e = Inr tbl' \<Longrightarrow> frame_kept tbl tbl'"
  by (auto simp: insert_onConflictDoUpdate_def frame_kept_def epoch_frame_def
      split: if_splits)

lemma frame_kept_syncEpoch:
  "frame_kept (epochTable st) (epochTable (step_state (syncEpoch fetch dbOk n st)))"
  by (auto simp: syncEpoch_def Let_def frame_kept_refl
      split: option.splits sum.splits dest: frame_kept_upsert)

lemma frame_kept_syncEpochs_loop:
  "frame_kept (epochTable st) (epochTable (syncEpochs_loop fetch dbOk n st))"
proof (induction fetch dbOk n st rule: syncEpochs_loop.induct)
  case (1 fetch dbOk n st)
  show ?case
  proof (cases "0 \<le> n")
    case False
    then show ?thesis
      by (subst syncEpochs_loop.simps) (simp add: frame_kept_refl)
  next
    case True
    show ?thesis
    proof (cases "syncEpoch fetch dbOk n st")
      case (Break st')
      with True frame_kept_syncEpoch [of st fetch dbOk n] show ?thesis
        by (subst syncEpochs_loop.simps) simp
    next
      case (Continue st')
      from Continue frame_kept_syncEpoch [of st fetch dbOk n]
      have a: "frame_kept (epochTable st) (epochTable st')" by simp
      have b: "frame_kept (epochTable st')
          (epochTable (syncEpochs_loop fetch dbOk (n - 1) st'))"
        using 1 [OF True Continue] .
      from frame_kept_trans [OF a b] True Continue show ?thesis
        by (subst syncEpochs_loop.simps) simp
    qed
  qed
qed

lemma frame_kept_syncAllPlatformEpochs:
  "frame_kept tbl (snd (syncAllPlatformEpochs cur fetch dbOk tbl))"
  using frame_kept_syncEpochs_loop
    [of "\<lparr> epochTable = tbl, epochsInserted = 0, epochDelays = [] \<rparr>" fetch dbOk]
  by (auto simp: syncAllPlatformEpochs_def Let_def frame_kept_refl split: option.splits)

lemma syncEpoch_updates_stored:
  assumes "fetchPlatformEpoch epochNum = Some ep"
    and "epoch ep = Some e"
    and "\<not> real_of_int (info_startTime e) / 1000 < real_of_int JAN_1_2026_UNIX"
    and "dbOk epochNum"
    and "lookup_epoch (epochTable st) (number e) = Some old"
  shows "\<exists>st'. syncEpoch fetchPlatformEpoch dbOk epochNum st = Continue st'
     \<and> lookup_epoch (epochTable st') (number e)
         = Some (old\<lparr> totalCollectedFees := number_or (resp_totalCollectedFees ep) 0,
                      endTime := info_endTime e \<rparr>)"
proof -
  from assms(5) have mem: "number e \<in> set (map epochNumber (epochTable st))"
    unfolding lookup_epoch_def by (force dest!: find_Some_mem)
  show ?thesis
    using assms mem
    by (simp add: syncEpoch_def Let_def insert_onConflictDoUpdate_def lookup_epoch_def
        find_map_update)
qed

lemma find_append_cases:
  "find P (xs @ ys) = (case find P xs of None \<Rightarrow> find P ys | Some x \<Rightarrow> Some x)"
  by (induction xs) auto

lemma find_map_other:
  "n \<noteq> k \<Longrightarrow> (\<And>r. epochNumber (f r) = epochNumber r) \<Longrightarrow>
   find (\<lambda>r. epochNumber r = k) (map (\<lambda>r. if epochNumber r = n then f r else r) tbl)
     = find (\<lambda>r. epochNumber r = k) tbl"
  by (induction tbl) auto

lemma lookup_upsert_other:
  assumes "insert_onConflictDoUpdate ok tbl v fees en = Inr tbl'" and "epochNumber v \<noteq> k"
  shows "lookup_epoch tbl' k = lookup_epoch tbl k"
proof (cases "epochNumber v \<in> set (map epochNumber tbl)")
  case True
  with assms show ?thesis
    by (auto simp: insert_onConflictDoUpdate_def lookup_epoch_def find_map_other
        split: if_splits)
next
  case False
  with assms show ?thesis
    by (auto simp: insert_onConflictDoUpdate_def lookup_epoch_def find_append_cases
        split: if_splits option.splits)
qed

lemma syncEpoch_other:
  assumes "fetched_number fetch i \<noteq> Some k"
  shows "lookup_epoch (epochTable (step_state (syncEpoch fetch dbOk i st))) k
     = lookup_epoch (epochTable st) k"
proof (cases "fetch i")
  case None
  then show ?thesis by (simp add: syncEpoch_def)
next
  case (Some ep)
  show ?thesis
  proof (cases "epoch ep")
    case None
    with Some show ?thesis by (simp add: syncEpoch_def)
  next
    case e: (Some e)
    with Some assms have ne: "number e \<noteq> k"
      by (simp add: fetched_number_def)
    show ?thesis
      using Some e ne
      by (auto simp: syncEpoch_def Let_def split: sum.splits
          dest!: lookup_upsert_other [where k = k])
  qed
qed

lemma syncEpoch_Continue:
  "\<not> too_old fetch i \<Longrightarrow> \<exists>st'. syncEpoch fetch dbOk i st = Continue st'"
  by (auto simp: too_old_def syncEpoch_def Let_def split: option.splits)

lemma syncEpochs_loop_other:
  "(\<And>i. 0 \<le> i \<Longrightarrow> i \<le> m \<Longrightarrow> fetched_number fetch i \<noteq> Some k) \<Longrightarrow>
   lookup_epoch (epochTable (syncEpochs_loop fetch dbOk m st)) k
     = lookup_epoch (epochTable st) k"
proof (induction fetch dbOk m st rule: syncEpochs_loop.induct)
  case (1 fetch dbOk m st)
  show ?case
  proof (cases "0 \<le> m")
    case False
    then show ?thesis by (subst syncEpochs_loop.simps) simp
  next
    case True
    have here: "lookup_epoch (epochTable (step_state (syncEpoch fetch dbOk m st))) k
        = lookup_epoch (epochTable st) k"
      using "1.prems" [of m] True by (intro syncEpoch_other) simp
    show ?thesis
    proof (cases "syncEpoch fetch dbOk m st")
      case (Break st')
      with True here show ?thesis by (subst syncEpochs_loop.simps) simp
    next
      case (Continue st')
      have "lookup_epoch (epochTable (syncEpochs_loop fetch dbOk (m - 1) st')) k
          = lookup_epoch (epochTable st') k"
        using "1.prems" by (intro "1.IH" [OF True Continue]) simp_all
      with True Continue here show ?thesis by (subst syncEpochs_loop.simps) simp
    qed
  qed
qed

lemma syncEpochs_loop_reach:
  "j \<le> m \<Longrightarrow> 0 \<le> j \<Longrightarrow>
   (\<And>i. j < i \<Longrightarrow> i \<le> m \<Longrightarrow> \<not> too_old fetch i) \<Longrightarrow>
   (\<And>i. j < i \<Longrightarrow> i \<le> m \<Longrightarrow> fetched_number fetch i \<noteq> Some k) \<Longrightarrow>
   \<exists>st1. syncEpochs_loop fetch dbOk m st = syncEpochs_loop fetch dbOk j st1
     \<and> lookup_epoch (epochTable st1) k = lookup_epoch (epochTable st) k"
proof (induction fetch dbOk m st rule: syncEpochs_loop.induct)
  case (1 fetch dbOk m st)
  show ?case
  proof (cases "j = m")
    case True
    then show ?thesis by blast
  next
    case False
    with "1.prems" have lt: "j < m" and m: "0 \<le> m" by simp_all
    from syncEpoch_Continue [OF "1.prems"(3) [OF lt order_refl]]
    obtain st' where step: "syncEpoch fetch dbOk m st = Continue st'" by blast
    have here: "lookup_epoch (epochTable st') k = lookup_epoch (epochTable st) k"
      using syncEpoch_other [OF "1.prems"(4) [OF lt order_refl], of dbOk st] step by simp
    have "\<exists>st1. syncEpochs_loop fetch dbOk (m - 1) st' = syncEpochs_loop fetch dbOk j st1
        \<and> lookup_epoch (epochTable st1) k = lookup_epoch (epochTable st') k"
      using lt "1.prems" by (intro "1.IH" [OF m step]) simp_all
    then obtain st1 where "syncEpochs_loop fetch dbOk (m - 1) st' = syncEpochs_loop fetch dbOk j st1"
      and "lookup_epoch (epochTable st1) k = lookup_epoch (epochTable st') k"
      by blast
    moreover have "syncEpochs_loop fetch dbOk m st = syncEpochs_loop fetch dbOk (m - 1) st'"
      using m step by (subst syncEpochs_loop.simps) simp
    ultimately show ?thesis using here by auto
  qed
qed

text \<open>
  Claim C8. Take a run of \<open>syncAllPlatformEpochs\<close> from the current epoch \<open>n\<close> (not 0)
  whose walk reaches the epoch number \<open>j\<close>: no answer fetched before it is older than the
  cutoff. If the answer fetched for \<open>j\<close> carries an epoch number that is stored already,
  is not older than the cutoff, the database statement for it succeeds, and no other
  answer of the walk carries that number, then after the run the row stored under that
  number is the old row with \<open>totalCollectedFees\<close> and \<open>endTime\<close> replaced by the fetched
  values (so a larger total fetched by a later sync is the one stored), while \<open>startTime\<close>
  and \<open>feeMultiplier\<close> are the stored ones, whatever the answer says. Besides, a run of
  \<open>syncAllPlatformEpochs\<close>, whatever it fetches, keeps every stored row with its
  \<open>epochNumber\<close>, \<open>startTime\<close> and \<open>feeMultiplier\<close>.
\<close>

theorem syncAllPlatformEpochs_resync_updates:
  assumes "n \<noteq> 0" and "0 \<le> j" and "j \<le> n"
    and "fetchPlatformEpoch j = Some ep"
    and "epoch ep = Some e"
    and "\<not> real_of_int (info_startTime e) / 1000 < real_of_int JAN_1_2026_UNIX"
    and "dbOk j"
    and "lookup_epoch tbl (number e) = Some old"
    and "\<And>i. j < i \<Longrightarrow> i \<le> n \<Longrightarrow> \<not> too_old fetchPlatformEpoch i"
    and "\<And>i. 0 \<le> i \<Longrightarrow> i \<le> n \<Longrightarrow> i \<noteq> j
           \<Longrightarrow> fetched_number fetchPlatformEpoch i \<noteq> Some (number e)"
  shows "lookup_epoch (snd (syncAllPlatformEpochs (Some n) fetchPlatformEpoch dbOk tbl))
           (number e)
         = Some (old\<lparr> totalCollectedFees := number_or (resp_totalCollectedFees ep) 0,
                      endTime := info_endTime e \<rparr>)
     \<and> map_option startTime
          (lookup_epoch (snd (syncAllPlatformEpochs (Some n) fetchPlatformEpoch dbOk tbl))
             (number e)) = Some (startTime old)
     \<and> map_option feeMultiplier
          (lookup_epoch (snd (syncAllPlatformEpochs (Some n) fetchPlatformEpoch dbOk tbl))
             (number e)) = Some (feeMultiplier old)
     \<and> frame_kept tbl
          (snd (syncAllPlatformEpochs currentEpoch fetchPlatformEpoch dbOk tbl))"
proof -
  let ?f = fetchPlatformEpoch
  let ?k = "number e"
  let ?st0 = "\<lparr> epochTable = tbl, epochsInserted = 0, epochDelays = [] \<rparr>"
  have run: "snd (syncAllPlatformEpochs (Some n) ?f dbOk tbl)
      = epochTable (syncEpochs_loop ?f dbOk n ?st0)"
    using assms(1) by (simp add: syncAllPlatformEpochs_def Let_def)
  from syncEpochs_loop_reach
    [where j = j and m = n and fetch = ?f and k = ?k and dbOk = dbOk and st = ?st0,
     OF assms(3,2)] assms(9,10)
  obtain st1 where reach: "syncEpochs_loop ?f dbOk n ?st0 = syncEpochs_loop ?f dbOk j st1"
    and l1: "lookup_epoch (epochTable st1) ?k = lookup_epoch tbl ?k"
    using assms(2) by force
  have l1': "lookup_epoch (epochTable st1) ?k = Some old"
    using l1 assms(8) by simp
  from syncEpoch_updates_stored
    [where fetchPlatformEpoch = ?f and dbOk = dbOk and epochNum = j and st = st1,
     OF assms(4) assms(5) assms(6) assms(7) l1']
  obtain st2 where step: "syncEpoch ?f dbOk j st1 = Continue st2"
    and l2: "lookup_epoch (epochTable st2) ?k
        = Some (old\<lparr> totalCollectedFees := number_or (resp_totalCollectedFees ep) 0,
                     endTime := info_endTime e \<rparr>)"
    by auto
  have rest: "lookup_epoch (epochTable (syncEpochs_loop ?f dbOk (j - 1) st2)) ?k
      = lookup_epoch (epochTable st2) ?k"
    using assms(3,10) by (intro syncEpochs_loop_other) simp
  have "syncEpochs_loop ?f dbOk j st1 = syncEpochs_loop ?f dbOk (j - 1) st2"
    using assms(2) step by (subst syncEpochs_loop.simps) simp
  with run reach rest l2
  have "lookup_epoch (snd (syncAllPlatformEpochs (Some n) ?f dbOk tbl)) ?k
      = Some (old\<lparr> totalCollectedFees := number_or (resp_totalCollectedFees ep) 0,
                   endTime := info_endTime e \<rparr>)"
    by simp
  then show ?thesis
    by (simp add: frame_kept_syncAllPlatformEpochs)
qed

lemma explorer_first_sync:
  "snd (syncAllPlatformEpochs (Some 42) explorer_first (\<lambda>n. True) [])
     = [\<lparr> epochNumber = 42, startTime = 1767400000000, endTime = 1767486400000,
           totalCollectedFees = 10, feeMultiplier = 1 \<rparr>,
        \<lparr> epochNumber = 41, startTime = 1767313600000, endTime = 1767400000000,
           totalCollectedFees = 500, feeMultiplier = 1 \<rparr>]"
  by (simp add: syncAllPlatformEpochs_def syncEpochs_loop.simps syncEpoch_def
      explorer_first_def epoch_answer_def insert_onConflictDoUpdate_def
      JAN_1_2026_UNIX_def Let_def)

theorem syncAllPlatformEpochs_resync_updates_witness:
  "lookup_epoch (snd (syncAllPlatformEpochs (Some 42) explorer_first (\<lambda>n. True) [])) 41
     = Some \<lparr> epochNumber = 41, startTime = 1767313600000, endTime = 1767400000000,
              totalCollectedFees = 500, feeMultiplier = 1 \<rparr>
   \<and> explorer_second 41
     = Some (epoch_answer 41 1767313600777 1767400000999 (NumStr 2) 900)
   \<and> lookup_epoch
        (snd (syncAllPlatformEpochs (Some 42) explorer_second (\<lambda>n. True)
               (snd (syncAllPlatformEpochs (Some 42) explorer_first (\<lambda>n. True) [])))) 41
     = Some \<lparr> epochNumber = 41, startTime = 1767313600000, endTime = 1767400000999,
              totalCollectedFees = 900, feeMultiplier = 1 \<rparr>"
proof -
  let ?tbl = "snd (syncAllPlatformEpochs (Some 42) explorer_first (\<lambda>n. True) [])"
  let ?old = "\<lparr> epochNumber = 41, startTime = 1767313600000, endTime = 1767400000000,
                 totalCollectedFees = 500, feeMultiplier = 1 \<rparr>"
  let ?e = "\<lparr> number = 41, info_startTime = 1767313600777, info_endTime = 1767400000999,
               info_feeMultiplier = NumStr 2 \<rparr>"
  let ?ep = "\<lparr> epoch = Some ?e, resp_totalCollectedFees = Num 900 \<rparr>"
  have h4: "explorer_second 41 = Some ?ep"
    by (simp add: explorer_second_def epoch_answer_def)
  have h5: "epoch ?ep = Some ?e" by simp
  have h6: "\<not> real_of_int (info_startTime ?e) / 1000 < real_of_int JAN_1_2026_UNIX"
    by (simp add: JAN_1_2026_UNIX_def)
  have h8: "lookup_epoch ?tbl (number ?e) = Some ?old"
    by (simp add: explorer_first_sync lookup_epoch_def)
  have h9: "\<not> too_old explorer_second i" if "41 < i" "i \<le> 42" for i
  proof -
    from that have "i = 42" by simp
    then show ?thesis
      by (simp add: too_old_def explorer_second_def epoch_answer_def JAN_1_2026_UNIX_def)
  qed
  have h10: "fetched_number explorer_second i \<noteq> Some (number ?e)"
    if "0 \<le> i" "i \<le> 42" "i \<noteq> 41" for i
    using that by (simp add: fetched_number_def explorer_second_def epoch_answer_def)
  from syncAllPlatformEpochs_resync_updates
    [where n = 42 and j = 41 and fetchPlatformEpoch = explorer_second and ep = ?ep
       and e = ?e and dbOk = "\<lambda>n. True" and tbl = ?tbl and old = ?old
       and currentEpoch = "Some 42",
     OF _ _ _ h4 h5 h6 _ h8 h9 h10]
  have "lookup_epoch (snd (syncAllPlatformEpochs (Some 42) explorer_second (\<lambda>n. True) ?tbl))
          (number ?e)
      = Some (?old\<lparr> totalCollectedFees := number_or (resp_totalCollectedFees ?ep) 0,
                     endTime := info_endTime ?e \<rparr>)"
    by simp
  then have "lookup_epoch
      (snd (syncAllPlatformEpochs (Some 42) explorer_second (\<lambda>n. True) ?tbl)) 41
      = Some \<lparr> epochNumber = 41, startTime = 1767313600000, endTime = 1767400000999,
               totalCollectedFees = 900, feeMultiplier = 1 \<rparr>"
    by simp
  moreover have "explorer_second 41
      = Some (epoch_answer 41 1767313600777 1767400000999 (NumStr 2) 900)"
    by (simp add: explorer_second_def)
  moreover have "lookup_epoch ?tbl 41 = Some ?old"
    using h8 by simp
  ultimately show ?thesis by (intro conjI)
qed

subsection \<open>Forward sync\<close>

lemma sync_batch_upto: "sync_batch s b j = map (\<lambda>k. s - k) [j..b - 1]"
proof (induction s b j rule: sync_batch.induct)
  case (1 s b j)
  show ?case
  proof (cases "j < b")
    case True
    then have "[j..b - 1] = j # [j + 1..b - 1]"
      by (simp add: upto_rec1)
    with True 1 show ?thesis
      by (subst sync_batch.simps) simp
  next
    case False
    then show ?thesis
      by (subst sync_batch.simps) simp
  qed
qed

lemma fetchLog_forward_batch:
  "fetchLog (forward_batch w u t s i st)
     = fetchLog st @ map (\<lambda>k. s - k) [i..min (i + sync_batchSize u) t - 1]"
  by (simp add: forward_batch_def Let_def sync_batch_upto)

lemma upto_batch_join:
  assumes "i < t" "0 < b"
  shows "[i..min (i + b) t - 1] @ [i + b..t - 1] = [i..t - (1::int)]"
proof (cases "i + b < t")
  case True
  then have "[i..t - 1] = [i..i + b - 1] @ [i + b..t - 1]"
    using assms by (intro upto_split1) auto
  with True show ?thesis by (simp add: min_def)
next
  case False
  then show ?thesis by (simp add: min_def)
qed

lemma fetchLog_forward_loop:
  "fetchLog (forward_loop w u t s i st) = fetchLog st @ map (\<lambda>k. s - k) [i..t - 1]"
proof (induction w u t s i st rule: forward_loop.induct)
  case (1 w u t s i st)
  show ?case
  proof (cases "i < t")
    case True
    have b: "0 < sync_batchSize u" by (simp add: sync_batchSize_def)
    have "fetchLog (forward_loop w u t s i st)
        = fetchLog (forward_loop w u t s (i + sync_batchSize u) (forward_batch w u t s i st))"
      using True by (subst forward_loop.simps) simp
    also have "\<dots> = fetchLog (forward_batch w u t s i st)
        @ map (\<lambda>k. s - k) [i + sync_batchSize u..t - 1]"
      using 1 [OF True] .
    also have "\<dots> = fetchLog st @ map (\<lambda>k. s - k)
        ([i..min (i + sync_batchSize u) t - 1] @ [i + sync_batchSize u..t - 1])"
      by (simp add: fetchLog_forward_batch)
    also have "\<dots> = fetchLog st @ map (\<lambda>k. s - k) [i..t - 1]"
      using upto_batch_join [OF True b] by simp
    finally show ?thesis .
  next
    case False
    then show ?thesis by (subst forward_loop.simps) simp
  qed
qed

lemma fetchLog_syncNewCoreBlocks:
  assumes "selectOk w" "coreStatus w = Some c" "c \<noteq> 0"
    and "js_or (sql_max (map row_height (coreBlockFees s))) 0 = m"
    and "m = 0 \<or> m < c"
  shows "fetchLog (snd (syncNewCoreBlocks w s))
     = fetchLog s @ map (\<lambda>j. c - j) [0..(if m \<noteq> 0 then min (c - m) 50 else 20) - 1]"
  using assms
  by (auto simp: syncNewCoreBlocks_def Let_def fetchLog_forward_loop server.truncate_def
      server.extend_def)

text \<open>
  Claim C3, as stated, fails on an empty cache: with the chain at height 2400000 the sync
  asks for 20 heights, not for \<open>min (2400000 - 0) 50 = 50\<close>.
\<close>

theorem syncNewCoreBlocks_empty_cache_counterexample:
  "coreBlockFees (idle_server [] None) = []
   \<and> coreStatus public_world = Some 2400000
   \<and> length (fetchLog (snd (syncNewCoreBlocks public_world (idle_server [] None)))) = 20
   \<and> nat (min (2400000
        - js_or (sql_max (map row_height (coreBlockFees (idle_server [] None)))) 0) 50) = 50"
  using fetchLog_syncNewCoreBlocks [of public_world 2400000 "idle_server [] None" 0]
  by (simp add: public_world_def idle_server_def js_or_def)

text \<open>
  Claim C3, amended. Let the read of the cached maximum succeed and the height query give
  a height \<open>c\<close> that is not 0. When the cached maximum \<open>m\<close> is not 0 and \<open>c\<close> is above it,
  \<open>syncNewCoreBlocks\<close> asks \<open>fetchBlock\<close> for exactly the \<open>min (c - m) 50\<close> heights \<open>c\<close>
  down to \<open>c - min (c - m) 50 + 1\<close>, in that order, whatever the batch size. When no
  height is cached, or the cached maximum is 0, it asks for exactly the 20 heights \<open>c\<close>
  down to \<open>c - 19\<close>.
\<close>

theorem syncNewCoreBlocks_fetches_most_recent:
  assumes "selectOk w" and "coreStatus w = Some c" and "c \<noteq> 0"
  shows "(sql_max (map row_height (coreBlockFees s)) = Some m \<and> m \<noteq> 0 \<and> m < c \<longrightarrow>
            fetchLog (snd (syncNewCoreBlocks w s))
              = fetchLog s @ map (\<lambda>j. c - j) [0..min (c - m) 50 - 1])
     \<and> (sql_max (map row_height (coreBlockFees s)) = None
          \<or> sql_max (map row_height (coreBlockFees s)) = Some 0 \<longrightarrow>
            fetchLog (snd (syncNewCoreBlocks w s)) = fetchLog s @ map (\<lambda>j. c - j) [0..19])"
proof (intro conjI impI)
  assume "sql_max (map row_height (coreBlockFees s)) = Some m \<and> m \<noteq> 0 \<and> m < c"
  then have "js_or (sql_max (map row_height (coreBlockFees s))) 0 = m" and "m = 0 \<or> m < c"
    and "m \<noteq> 0"
    by (simp_all add: js_or_def)
  from fetchLog_syncNewCoreBlocks [OF assms this(1,2)] this(3)
  show "fetchLog (snd (syncNewCoreBlocks w s))
      = fetchLog s @ map (\<lambda>j. c - j) [0..min (c - m) 50 - 1]"
    by simp
next
  assume "sql_max (map row_height (coreBlockFees s)) = None
    \<or> sql_max (map row_height (coreBlockFees s)) = Some 0"
  then have "js_or (sql_max (map row_height (coreBlockFees s))) 0 = 0"
    by (auto simp: js_or_def)
  from fetchLog_syncNewCoreBlocks [OF assms this]
  show "fetchLog (snd (syncNewCoreBlocks w s)) = fetchLog s @ map (\<lambda>j. c - j) [0..19]"
    by simp
qed

theorem syncNewCoreBlocks_fetches_most_recent_witness:
  "selectOk public_world \<and> coreStatus public_world = Some 2400000
   \<and> sql_max (map row_height
        (coreBlockFees (idle_server [blockDataToRow (sample_block 2399997)] None)))
      = Some 2399997
   \<and> fetchLog (snd (syncNewCoreBlocks public_world
        (idle_server [blockDataToRow (sample_block 2399997)] None)))
      = [2400000, 2399999, 2399998]
   \<and> sql_max (map row_height (coreBlockFees (idle_server [] None))) = None
   \<and> fetchLog (snd (syncNewCoreBlocks public_world (idle_server [] None)))
      = map (\<lambda>j. 2400000 - j) [0..19]
   \<and> sql_max (map row_height
        (coreBlockFees (idle_server [blockDataToRow (sample_block 0)] None))) = Some 0
   \<and> fetchLog (snd (syncNewCoreBlocks public_world
        (idle_server [blockDataToRow (sample_block 0)] None)))
      = map (\<lambda>j. 2400000 - j) [0..19]"
  using syncNewCoreBlocks_fetches_most_recent
      [of public_world 2400000 "idle_server [blockDataToRow (sample_block 2399997)] None"
          2399997]
    syncNewCoreBlocks_fetches_most_recent [of public_world 2400000 "idle_server [] None"]
    syncNewCoreBlocks_fetches_most_recent
      [of public_world 2400000 "idle_server [blockDataToRow (sample_block 0)] None"]
  by (simp add: public_world_def idle_server_def blockDataToRow_def sample_block_def
      Let_def upto_rec1)

subsection \<open>Backfill\<close>





lemma insertBlockRow_rows:
  "set (snd (insertBlockRow dbOk tbl row)) \<subseteq> insert row (set tbl)"
  by (auto simp: insertBlockRow_def insert_onConflictDoNothing_def)

lemma row_time_blockDataToRow: "row_time (blockDataToRow b) = time b"
  by (simp add: blockDataToRow_def Let_def)

lemma backfill_results_rows:
  "r \<in> set (fst (backfill_results fetch ok hs (tbl, bi, af))) \<Longrightarrow>
   r \<in> set tbl \<or> JAN_1_2026_UNIX \<le> row_time r"
proof (induction hs arbitrary: tbl bi af)
  case Nil
  then show ?case by simp
next
  case (Cons h hs)
  show ?case
  proof (cases "fetch h")
    case None
    with Cons show ?thesis by simp
  next
    case (Some b)
    show ?thesis
    proof (cases "JAN_1_2026_UNIX \<le> time b")
      case True
      let ?res = "insertBlockRow (ok h) tbl (blockDataToRow b)"
      from Cons.prems Some True
      have "r \<in> set (fst (backfill_results fetch ok hs
                (snd ?res, if fst ?res then bi + 1 else bi, af)))"
        by (simp add: Let_def)
      then have "r \<in> set (snd ?res) \<or> JAN_1_2026_UNIX \<le> row_time r"
        by (rule Cons.IH)
      moreover have "set (snd ?res) \<subseteq> insert (blockDataToRow b) (set tbl)"
        by (rule insertBlockRow_rows)
      ultimately show ?thesis
        using True by (auto simp: row_time_blockDataToRow)
    next
      case False
      with Cons Some show ?thesis by simp
    qed
  qed
qed

lemma backfill_step_rows:
  "r \<in> set (coreBlockFees (outcome_state (backfill_step w u oc T st))) \<Longrightarrow>
   r \<in> set (coreBlockFees st) \<or> JAN_1_2026_UNIX \<le> row_time r"
  by (auto simp: backfill_step_def Let_def dest: backfill_results_rows split: if_splits)

lemma backfill_loop_rows:
  "r \<in> set (coreBlockFees (run_state (backfill_loop fuel w u oc T st))) \<Longrightarrow>
   r \<in> set (coreBlockFees st) \<or> JAN_1_2026_UNIX \<le> row_time r"
proof (induction fuel arbitrary: st)
  case 0
  then show ?case by (simp split: if_splits)
next
  case (Suc fuel)
  show ?case
  proof (cases "T \<le> currentHeight st \<and> backfillRunning st")
    case False
    with Suc.prems show ?thesis by auto
  next
    case True
    show ?thesis
    proof (cases "backfill_step w u oc T st")
      case (Threw st')
      with True Suc.prems have "r \<in> set (coreBlockFees st')" by simp
      with Threw backfill_step_rows [of r w u oc T st] show ?thesis by simp
    next
      case (Completed st')
      with True Suc.prems
      have "r \<in> set (coreBlockFees (run_state (backfill_loop fuel w u oc T st')))" by simp
      then have "r \<in> set (coreBlockFees st') \<or> JAN_1_2026_UNIX \<le> row_time r"
        by (rule Suc.IH)
      with Completed backfill_step_rows [of r w u oc T st] show ?thesis by auto
    qed
  qed
qed

lemma estimateTargetHeight_table:
  "estimateTargetHeight w s = Inr (t, s1) \<Longrightarrow> coreBlockFees s1 = coreBlockFees s"
  by (auto simp: estimateTargetHeight_def Let_def split: if_splits option.splits)

lemma backfill_epilogue_table:
  "coreBlockFees (run_state (backfill_epilogue w T R)) = coreBlockFees (run_state R)"
  by (cases R) (simp_all add: backfill_epilogue_def backfill_failed_def server.truncate_def)

lemma startCoreBackfill_rows:
  assumes "r \<in> set (coreBlockFees (run_state (startCoreBackfill fuel w s)))"
  shows "r \<in> set (coreBlockFees s) \<or> JAN_1_2026_UNIX \<le> row_time r"
proof (cases "backfillRunning s \<or> \<not> selectOk w
    \<or> js_or (sql_min (map row_height (coreBlockFees s))) 0 = 0")
  case True
  with assms show ?thesis
    by (auto simp: startCoreBackfill_def Let_def backfill_failed_def split: if_splits)
next
  case False
  show ?thesis
  proof (cases "estimateTargetHeight w s")
    case (Inl e)
    with False assms show ?thesis
      by (simp add: startCoreBackfill_def Let_def backfill_failed_def)
  next
    case (Inr p)
    obtain T s1 where p: "p = (T, s1)" by (cases p)
    have tbl: "coreBlockFees s1 = coreBlockFees s"
      using Inr p by (auto dest: estimateTargetHeight_table)
    show ?thesis
    proof (cases "js_or (sql_min (map row_height (coreBlockFees s))) 0 \<le> T")
      case True
      with False assms Inr p tbl show ?thesis
        by (simp add: startCoreBackfill_def Let_def)
    next
      case le: False
      from False le assms Inr p
      obtain u oc st where
        "r \<in> set (coreBlockFees (run_state (backfill_loop fuel w u oc T st)))"
        and "coreBlockFees st = coreBlockFees s1"
        by (auto simp: startCoreBackfill_def Let_def backfill_epilogue_table
            server.extend_def)
      with tbl show ?thesis
        using backfill_loop_rows [of r fuel w u oc T st] by simp
    qed
  qed
qed
















lemma sample_backfill_run:
  "startCoreBackfill 5 public_world (idle_server [blockDataToRow (sample_block 103)] (Some 100))
     = Finished
        \<lparr> backfillRunning = False,
          backfillProgress = \<lparr> totalNeeded = 3, totalDone = 4, oldestHeight = 99,
                               targetHeight = 100, status = ''complete'' \<rparr>,
          rpcAvailable = Some False,
          coreBlockFees = [blockDataToRow (sample_block 103), blockDataToRow (sample_block 102),
                           blockDataToRow (sample_block 101)],
          backfill_target_height = Some 100,
          backfill_oldest_height = Some 98,
          fetchLog = [102, 101, 100],
          delayLog = [2000, 2000] \<rparr>"
  by (simp add: startCoreBackfill_def estimateTargetHeight_def idle_server_def public_world_def
      checkRpcAvailability_def js_or_def Let_def server.extend_def server.truncate_def
      eval_nat_numeral backfill_step_def backfill_batch.simps BATCH_SIZE_def DELAY_MS_def
      fetchBlock_def insertBlockRow_def insert_onConflictDoNothing_def blockDataToRow_def
      sample_block_def sample_hash_def digit_char_def isSuperblock_def js_rem_def
      superblockCycle_def JAN_1_2026_UNIX_def backfill_epilogue_def idle_progress_def)

text \<open>
  Claim C9. Whatever the sources and the database do, and however long the walk runs, a
  row of \<open>core_block_fees\<close> after \<open>startCoreBackfill\<close> (at its return, or at any point
  the walk has reached when it has not returned) was stored before the call or has a
  timestamp at or after the cutoff of Jan 1 2026: a fetched block older than the cutoff is
  not inserted.
\<close>

theorem startCoreBackfill_inserts_only_recent:
  "\<forall>r \<in> set (coreBlockFees (run_state (startCoreBackfill fuel w s))).
     r \<in> set (coreBlockFees s) \<or> JAN_1_2026_UNIX \<le> row_time r"
  using startCoreBackfill_rows by blast

theorem startCoreBackfill_inserts_only_recent_witness:
  "blockDataToRow (sample_block 102)
     \<in> set (coreBlockFees (run_state (startCoreBackfill 5 public_world
          (idle_server [blockDataToRow (sample_block 103)] (Some 100)))))
   \<and> blockDataToRow (sample_block 102)
     \<notin> set (coreBlockFees (idle_server [blockDataToRow (sample_block 103)] (Some 100)))
   \<and> JAN_1_2026_UNIX \<le> row_time (blockDataToRow (sample_block 102))
   \<and> 100 \<in> set (fetchLog (run_state (startCoreBackfill 5 public_world
          (idle_server [blockDataToRow (sample_block 103)] (Some 100)))))
   \<and> fetchBlock public_world False 1 100 = Some (sample_block 100)
   \<and> time (sample_block 100) < JAN_1_2026_UNIX
   \<and> blockDataToRow (sample_block 100)
     \<notin> set (coreBlockFees (run_state (startCoreBackfill 5 public_world
          (idle_server [blockDataToRow (sample_block 103)] (Some 100)))))"
proof -
  let ?s = "idle_server [blockDataToRow (sample_block 103)] (Some 100)"
  let ?R = "startCoreBackfill 5 public_world ?s"
  have tbl: "coreBlockFees (run_state ?R)
      = [blockDataToRow (sample_block 103), blockDataToRow (sample_block 102),
         blockDataToRow (sample_block 101)]"
    by (simp add: sample_backfill_run)
  have log: "fetchLog (run_state ?R) = [102, 101, 100]"
    by (simp add: sample_backfill_run)
  have 1: "blockDataToRow (sample_block 102) \<in> set (coreBlockFees (run_state ?R))"
    unfolding tbl by simp
  have 2: "blockDataToRow (sample_block 102) \<notin> set (coreBlockFees ?s)"
    by (simp add: idle_server_def blockDataToRow_def sample_block_def Let_def)
  from startCoreBackfill_inserts_only_recent [of 5 public_world ?s] 1
  have "blockDataToRow (sample_block 102) \<in> set (coreBlockFees ?s)
      \<or> JAN_1_2026_UNIX \<le> row_time (blockDataToRow (sample_block 102))"
    by blast
  with 2 have 3: "JAN_1_2026_UNIX \<le> row_time (blockDataToRow (sample_block 102))"
    by blast
  have 4: "100 \<in> set (fetchLog (run_state ?R))"
    unfolding log by simp
  have 5: "fetchBlock public_world False 1 100 = Some (sample_block 100)"
    by (simp add: fetchBlock_def public_world_def)
  have 6: "time (sample_block 100) < JAN_1_2026_UNIX"
    by (simp add: sample_block_def)
  have 7: "blockDataToRow (sample_block 100) \<notin> set (coreBlockFees (run_state ?R))"
    unfolding tbl by (simp add: blockDataToRow_def sample_block_def Let_def)
  from 1 2 3 4 5 6 7 show ?thesis by (intro conjI)
qed

subsection \<open>Masternode counts\<close>

text \<open>
  Claim C10 at an input where no source yields positive counts: the third-party API
  throws, nothing is persisted, and the privileged node answers \<open>masternode count\<close> with
  zeros and \<open>protx list\<close> with an empty list. \<open>fetchMasternodeCounts\<close> returns the zeros of
  the node, not the hardcoded default: the RPC branch lacks the test for positive counts
  that the other two branches make.
\<close>

theorem fetchMasternodeCounts_zero_counts:
  "fst (fetchMasternodeCounts unsynced_node_world
          \<lparr> cachedMnCounts = None, mn_rpcAvailable = None \<rparr>)
     = \<lparr> totalMasternodes = 0, evoNodes = 0 \<rparr>
   \<and> fst (fetchMasternodeCounts unsynced_node_world
          \<lparr> cachedMnCounts = None, mn_rpcAvailable = None \<rparr>) \<noteq> hardcoded_default
   \<and> counts_from_dashCentral unsynced_node_world = None
   \<and> counts_from_checkpoint unsynced_node_world = None"
  by (simp add: fetchMasternodeCounts_def unsynced_node_world_def counts_from_dashCentral_def
      counts_from_rpc_def counts_from_checkpoint_def checkRpcAvailability_def js_or_def
      hardcoded_default_def Let_def)

end
